theory Spec2Isabelle
  imports Complex_Main
begin

section \<open>The SKPS heatmap codec\<close>

text \<open>
  A shallow embedding of \<^verbatim>\<open>projects/skps/codecs2/skps_heatmap.py\<close>, class
  \<^verbatim>\<open>SKPSHeatmap\<close>: the constructor, \<^verbatim>\<open>encode\<close>,
  \<^verbatim>\<open>generate_offside_heatmap\<close> and \<^verbatim>\<open>decode\<close>.

  Conventions of the embedding.
  \<^item> Floating-point numbers are idealised as rationals (\<^typ>\<open>rat\<close>): rounding, infinities
    and NaN are not modelled. Division by a zero scale factor, which numpy answers with
    \<open>inf\<close>/\<open>nan\<close> and a warning, is therefore outside the idealisation.
  \<^item> An array of shape \<open>(A, B, C)\<close> is a nested list, outermost axis first; a keypoint
    array of shape \<open>(N, K, D)\<close> has \<open>D = 2\<close> fixed by the pair type of its cells.
  \<^item> Every exception the code can raise is a value \<open>Inl e\<close> of a sum type.
  \<^item> The two helpers imported from \<^verbatim>\<open>mmpose.codecs.utils\<close>
    (\<^verbatim>\<open>generate_unbiased_gaussian_heatmaps\<close> and \<^verbatim>\<open>get_heatmap_maximum\<close>)
    are parameters of \<open>encode\<close> and \<open>decode\<close>.
\<close>

subsection \<open>Arrays and numpy primitives\<close>

datatype error = AssertionError | IndexError

type_synonym arr2 = "rat list list"
type_synonym arr3 = "rat list list list"
type_synonym keypoint_array = "(rat \<times> rat) list list"

text \<open>The shape of a rectangular three-dimensional array.\<close>

definition has_shape3 :: "'a list list list \<Rightarrow> nat \<times> nat \<times> nat \<Rightarrow> bool" where
  "has_shape3 a s =
     (case s of (A, B, C) \<Rightarrow>
        length a = A \<and> list_all (\<lambda>p. length p = B \<and> list_all (\<lambda>r. length r = C) p) a)"

text \<open>
  Indexing one axis with an integer, as numpy and Python do: a negative index counts
  from the end, and an index outside the axis raises \<^verbatim>\<open>IndexError\<close>.
\<close>

definition np_index :: "'a list \<Rightarrow> int \<Rightarrow> error + 'a" where
  "np_index xs i =
     (let n = int (length xs);
          j = (if i < 0 then i + n else i)
      in if 0 \<le> j \<and> j < n then Inr (xs ! nat j) else Inl IndexError)"

text \<open>\<^verbatim>\<open>a[i, y, x]\<close> on a three-dimensional array.\<close>

definition getitem3 :: "'a list list list \<Rightarrow> int \<Rightarrow> int \<Rightarrow> int \<Rightarrow> error + 'a" where
  "getitem3 a i y x =
     (case np_index a i of
        Inl e \<Rightarrow> Inl e
      | Inr p \<Rightarrow>
          (case np_index p y of
             Inl e \<Rightarrow> Inl e
           | Inr r \<Rightarrow> np_index r x))"

text \<open>\<^verbatim>\<open>np.arange(0, n)\<close>: the integers \<open>0, \<dots>, n - 1\<close>, none when \<open>n \<le> 0\<close>.\<close>

definition np_arange :: "int \<Rightarrow> int list" where
  "np_arange n = [0..n - 1]"

text \<open>
  \<^verbatim>\<open>np.meshgrid(a, b, indexing='ij')\<close>: two grids of shape \<open>(len a, len b)\<close>, the first
  repeating \<open>a\<close> along the rows, the second repeating \<open>b\<close> along the columns.
\<close>

definition np_meshgrid_ij :: "'a list \<Rightarrow> 'a list \<Rightarrow> 'a list list \<times> 'a list list" where
  "np_meshgrid_ij a b = (map (\<lambda>u. map (\<lambda>_. u) b) a, map (\<lambda>_. b) a)"

text \<open>\<^verbatim>\<open>np.expand_dims(g, axis=-1)\<close> on a grid: shape \<open>(H, W)\<close> becomes \<open>(H, W, 1)\<close>.\<close>

definition np_expand_dims_last :: "'a list list \<Rightarrow> 'a list list list" where
  "np_expand_dims_last g = map (map (\<lambda>v. [v])) g"

text \<open>
  \<^verbatim>\<open>v - g\<close> for a vector \<open>v\<close> of shape \<open>(K,)\<close> and an integer array \<open>g\<close> of shape
  \<open>(H, W, 1)\<close>: broadcasting gives shape \<open>(H, W, K)\<close>, the cell \<open>[r, c, k]\<close> holding
  \<open>v[k] - g[r, c, 0]\<close>.
\<close>

definition broadcast_sub :: "rat list \<Rightarrow> int list list list \<Rightarrow> arr3" where
  "broadcast_sub v g = map (map (\<lambda>cell. map (\<lambda>a. a - of_int (hd cell)) v)) g"

text \<open>\<^verbatim>\<open>np.concatenate([a, b], axis=-1)\<close> for two arrays that agree on the first two axes.\<close>

definition np_concatenate_last :: "'a list list list \<Rightarrow> 'a list list list \<Rightarrow> 'a list list list" where
  "np_concatenate_last a b = map2 (\<lambda>p q. map2 (\<lambda>u w. u @ w) p q) a b"

text \<open>
  \<^verbatim>\<open>np.transpose(m, axes=[2, 0, 1])\<close>: shape \<open>(H, W, C)\<close> becomes \<open>(C, H, W)\<close> with
  \<open>result[a, r, c] = m[r, c, a]\<close>. The length \<open>C\<close> of the last axis is passed explicitly:
  a nested list with no row or no column does not record it.
\<close>

definition np_transpose_201 :: "nat \<Rightarrow> 'a list list list \<Rightarrow> 'a list list list" where
  "np_transpose_201 C m = map (\<lambda>a. map (\<lambda>row. map (\<lambda>cell. cell ! a) row) m) [0..<C]"

text \<open>\<^verbatim>\<open>np.ones((N, K))\<close>.\<close>

definition np_ones :: "nat \<times> nat \<Rightarrow> arr2" where
  "np_ones s = (case s of (N, K) \<Rightarrow> replicate N (replicate K 1))"

text \<open>\<^verbatim>\<open>keypoints.shape[:2]\<close> of a keypoint array of shape \<open>(N, K, 2)\<close>.\<close>

definition shape2 :: "'a list list \<Rightarrow> nat \<times> nat" where
  "shape2 a = (length a, (case a of [] \<Rightarrow> 0 | p # _ \<Rightarrow> length p))"

text \<open>
  \<^verbatim>\<open>.astype(np.int32)\<close> on a float: truncation towards zero, when the truncated
  value is a 32-bit integer. Beyond that range the conversion overflows: numpy answers
  with the smallest 32-bit integer, \<open>-2147483648\<close> (on the x86 platforms; the conversion
  is the C cast), so that the clamp of \<open>decode\<close> then applies.
\<close>

definition astype_int32 :: "rat \<Rightarrow> int" where
  "astype_int32 q =
     (let t = (if q < 0 then - \<lfloor>- q\<rfloor> else \<lfloor>q\<rfloor>)
      in if - 2147483648 \<le> t \<and> t < 2147483648 then t else - 2147483648)"

text \<open>
  Elementwise \<^verbatim>\<open>a / s\<close> and \<^verbatim>\<open>a * s\<close> of keypoint rows with a 2-vector \<open>s\<close>,
  broadcast over the last axis.
\<close>

definition div_scale :: "keypoint_array \<Rightarrow> rat \<times> rat \<Rightarrow> keypoint_array" where
  "div_scale a s = map (map (\<lambda>p. (fst p / fst s, snd p / snd s))) a"

definition mul_scale :: "(rat \<times> rat) list \<Rightarrow> rat \<times> rat \<Rightarrow> (rat \<times> rat) list" where
  "mul_scale a s = map (\<lambda>p. (fst p * fst s, snd p * snd s)) a"

subsection \<open>The codec object and its constructor\<close>

record SKPSHeatmap =
  input_size :: "int \<times> int"
  heatmap_size :: "int \<times> int"
  sigma :: rat
  scale_factor :: "rat \<times> rat"
  y_range :: "int list list"
  x_range :: "int list list"

text \<open>
  \<^verbatim>\<open>__init__\<close>: \<open>heatmap_size\<close> is \<open>(W, H)\<close>; the grids have shape \<open>(H, W)\<close>.
\<close>

definition SKPSHeatmap_init :: "int \<times> int \<Rightarrow> int \<times> int \<Rightarrow> rat \<Rightarrow> SKPSHeatmap" where
  "SKPSHeatmap_init isz hsz sg =
     (let grids = np_meshgrid_ij (np_arange (snd hsz)) (np_arange (fst hsz))
      in \<lparr> input_size = isz,
           heatmap_size = hsz,
           sigma = sg,
           scale_factor = (of_int (fst isz) / of_int (fst hsz), of_int (snd isz) / of_int (snd hsz)),
           y_range = fst grids,
           x_range = snd grids \<rparr>)"

subsection \<open>Encoding\<close>

text \<open>
  \<^verbatim>\<open>generate_offside_heatmap\<close>. The argument \<open>heatmap_size\<close> is unpacked and not used
  again: the grids of the codec decide the shape.
\<close>

definition generate_offside_heatmap ::
  "SKPSHeatmap \<Rightarrow> int \<times> int \<Rightarrow> keypoint_array \<Rightarrow> error + arr3" where
  "generate_offside_heatmap self hsz keypoints =
     (let K = snd (shape2 keypoints) in
      case np_index keypoints 0 of
        Inl e \<Rightarrow> Inl e
      | Inr kp \<Rightarrow>
          (let offside_x = broadcast_sub (map fst kp) (np_expand_dims_last (x_range self));
               offside_y = broadcast_sub (map snd kp) (np_expand_dims_last (y_range self));
               offside_map = np_concatenate_last offside_x offside_y
           in Inr (np_transpose_201 (2 * K) offside_map)))"

record encoded =
  heatmaps :: arr3
  keypoint_weights :: "rat list"
  displacements :: arr3

text \<open>
  The Gaussian heatmap generator, a parameter: from the heatmap size, the scaled
  keypoints, the visibilities and sigma to the heatmaps and the weights of shape \<open>(N, K)\<close>.
\<close>

type_synonym heatmap_generator =
  "int \<times> int \<Rightarrow> keypoint_array \<Rightarrow> arr2 \<Rightarrow> rat \<Rightarrow> arr3 \<times> arr2"

definition encode ::
  "SKPSHeatmap \<Rightarrow> heatmap_generator \<Rightarrow> keypoint_array \<Rightarrow> arr2 option \<Rightarrow> error + encoded" where
  "encode self generate_unbiased_gaussian_heatmaps keypoints keypoints_visible =
     (if fst (shape2 keypoints) \<noteq> 1 then Inl AssertionError
      else
        let keypoints_visible' =
              (case keypoints_visible of
                 None \<Rightarrow> np_ones (shape2 keypoints)
               | Some v \<Rightarrow> v);
            hw = generate_unbiased_gaussian_heatmaps (heatmap_size self)
                   (div_scale keypoints (scale_factor self)) keypoints_visible' (sigma self)
        in case generate_offside_heatmap self (heatmap_size self)
                  (div_scale keypoints (scale_factor self)) of
             Inl e \<Rightarrow> Inl e
           | Inr offside_heatmap \<Rightarrow>
               (case np_index (snd hw) 0 of
                  Inl e \<Rightarrow> Inl e
                | Inr w0 \<Rightarrow>
                    Inr \<lparr> heatmaps = fst hw,
                          keypoint_weights = w0,
                          displacements = offside_heatmap \<rparr>))"

subsection \<open>Decoding\<close>

text \<open>
  The peak finder, a parameter: from the heatmaps of shape \<open>(K, H, W)\<close> to the peak
  locations \<open>(x, y)\<close> (column, row) of shape \<open>(K, 2)\<close> and the scores of shape \<open>(K,)\<close>.
\<close>

type_synonym peak_finder = "arr3 \<Rightarrow> (rat \<times> rat) list \<times> rat list"

text \<open>\<^verbatim>\<open>if x < 0 or y < 0: x = y = 0\<close>.\<close>

definition clamp_peak :: "int \<times> int \<Rightarrow> int \<times> int" where
  "clamp_peak xy = (if fst xy < 0 \<or> snd xy < 0 then (0, 0) else xy)"

text \<open>
  The body of the loop for channel \<open>i\<close>, up to the two assignments: the integer peak is
  read and clamped, and both offsets are looked up at \<open>[i, y, x]\<close>.
\<close>

definition decode_channel ::
  "(int \<times> int) list \<Rightarrow> arr3 \<Rightarrow> arr3 \<Rightarrow> nat \<Rightarrow> error + rat \<times> rat" where
  "decode_channel keypoints_interger offside_x offside_y i =
     (case np_index keypoints_interger (int i) of
        Inl e \<Rightarrow> Inl e
      | Inr xy \<Rightarrow>
          (let x = fst (clamp_peak xy);
               y = snd (clamp_peak xy)
           in case getitem3 offside_x (int i) y x of
                Inl e \<Rightarrow> Inl e
              | Inr dx \<Rightarrow>
                  (case getitem3 offside_y (int i) y x of
                     Inl e \<Rightarrow> Inl e
                   | Inr dy \<Rightarrow> Inr (of_int x + dx, of_int y + dy))))"

text \<open>\<^verbatim>\<open>for i in range(K)\<close>, the array \<open>keypoints_decimal\<close> threaded through.\<close>

fun decode_loop ::
  "(int \<times> int) list \<Rightarrow> arr3 \<Rightarrow> arr3 \<Rightarrow> nat list \<Rightarrow> (rat \<times> rat) list
     \<Rightarrow> error + (rat \<times> rat) list" where
  "decode_loop ki ox oy [] keypoints_decimal = Inr keypoints_decimal"
| "decode_loop ki ox oy (i # rest) keypoints_decimal =
     (case decode_channel ki ox oy i of
        Inl e \<Rightarrow> Inl e
      | Inr v \<Rightarrow> decode_loop ki ox oy rest (keypoints_decimal[i := v]))"

text \<open>\<^verbatim>\<open>keypoints.astype(np.int32)\<close> on the array of peak locations.\<close>

definition astype_int32_rows :: "(rat \<times> rat) list \<Rightarrow> (int \<times> int) list" where
  "astype_int32_rows a = map (\<lambda>p. (astype_int32 (fst p), astype_int32 (snd p))) a"

text \<open>
  \<open>decode\<close> from the split of the displacement field on: \<open>K\<close> is the number of heatmap
  channels, \<open>keypoints\<close> and \<open>scores\<close> are what the peak finder returned.
\<close>

definition decode_body ::
  "SKPSHeatmap \<Rightarrow> nat \<Rightarrow> (rat \<times> rat) list \<Rightarrow> rat list \<Rightarrow> arr3
     \<Rightarrow> error + (rat \<times> rat) list list \<times> rat list list" where
  "decode_body self K keypoints scores offside =
     (let offside_x = take K offside;
          offside_y = drop K offside;
          keypoints_interger = astype_int32_rows keypoints;
          keypoints_decimal = map (\<lambda>_. (0, 0)) keypoints
      in case decode_loop keypoints_interger offside_x offside_y [0..<K] keypoints_decimal of
           Inl e \<Rightarrow> Inl e
         | Inr kd \<Rightarrow> Inr ([mul_scale kd (scale_factor self)], [scores]))"

text \<open>\<open>decode\<close> on array values.\<close>

definition decode ::
  "SKPSHeatmap \<Rightarrow> peak_finder \<Rightarrow> arr3 \<Rightarrow> arr3
     \<Rightarrow> error + (rat \<times> rat) list list \<times> rat list list" where
  "decode self get_heatmap_maximum encoded offside =
     (let heatmaps = encoded;
          K = length heatmaps;
          found = get_heatmap_maximum heatmaps
      in decode_body self K (fst found) (snd found) offside)"

subsection \<open>Method calls on objects and array references\<close>

text \<open>
  Python passes arrays by reference. To state what a call leaves unchanged, the arrays
  live in a store: a reference is an address, \<open>arrays\<close> gives the array held at each
  address and \<open>next_ref\<close> is the first address not yet allocated. A method call returns
  its result, the codec object after the call, and the store after the call.
\<close>

type_synonym ref = nat

record store =
  arrays :: "ref \<Rightarrow> arr3"
  next_ref :: ref

text \<open>\<^verbatim>\<open>a.copy()\<close>: a new array with the contents of \<open>a\<close>.\<close>

definition np_copy :: "ref \<Rightarrow> store \<Rightarrow> ref \<times> store" where
  "np_copy a s =
     (next_ref s, s\<lparr> arrays := (arrays s)(next_ref s := arrays s a), next_ref := Suc (next_ref s) \<rparr>)"

text \<open>
  The peak finder is handed a reference, and may write to the store as well as read it.
\<close>

type_synonym peak_finder_st = "ref \<Rightarrow> store \<Rightarrow> ((rat \<times> rat) list \<times> rat list) \<times> store"

text \<open>
  \<open>decode\<close> on references: both arguments are copied first, the peak finder receives the
  copy of the heatmaps, and the displacement field is read from its copy after that call.
\<close>

definition decode_st ::
  "SKPSHeatmap \<Rightarrow> peak_finder_st \<Rightarrow> ref \<Rightarrow> ref \<Rightarrow> store
     \<Rightarrow> (error + (rat \<times> rat) list list \<times> rat list list) \<times> SKPSHeatmap \<times> store" where
  "decode_st self get_heatmap_maximum encoded offside s =
     (let c1 = np_copy encoded s;
          heatmaps = fst c1;
          c2 = np_copy offside (snd c1);
          offside' = fst c2;
          K = length (arrays (snd c2) heatmaps);
          call = get_heatmap_maximum heatmaps (snd c2);
          found = fst call;
          s' = snd call
      in (decode_body self K (fst found) (snd found) (arrays s' offside'), self, s'))"

text \<open>
  \<open>encode\<close> as a method call: it reads the attributes of the codec and assigns to none.
\<close>

definition encode_st ::
  "SKPSHeatmap \<Rightarrow> heatmap_generator \<Rightarrow> keypoint_array \<Rightarrow> arr2 option
     \<Rightarrow> (error + encoded) \<times> SKPSHeatmap" where
  "encode_st self generate_unbiased_gaussian_heatmaps keypoints keypoints_visible =
     (encode self generate_unbiased_gaussian_heatmaps keypoints keypoints_visible, self)"

text \<open>
  What is assumed of a peak finder: of the arrays that exist when it is called, it writes
  to none but the one it is handed.
\<close>

definition writes_only_argument :: "peak_finder_st \<Rightarrow> bool" where
  "writes_only_argument pf =
     (\<forall>h s a. a < next_ref s \<and> a \<noteq> h \<longrightarrow> arrays (snd (pf h s)) a = arrays s a)"

text \<open>A peak finder on array values, as one on references that writes nothing.\<close>

definition reading_peak_finder :: "peak_finder \<Rightarrow> peak_finder_st" where
  "reading_peak_finder pf h s = (pf (arrays s h), s)"

subsection \<open>Notions used in the statements\<close>

text \<open>The cell \<open>[i, y, x]\<close> exists in the array \<open>a\<close>.\<close>

definition in_bounds3 :: "'a list list list \<Rightarrow> nat \<Rightarrow> nat \<Rightarrow> nat \<Rightarrow> bool" where
  "in_bounds3 a i y x = (i < length a \<and> y < length (a ! i) \<and> x < length (a ! i ! y))"

subsection \<open>Collaborators used in the examples\<close>

text \<open>A peak finder that answers with given locations and scores.\<close>

definition fixed_peaks :: "(rat \<times> rat) list \<Rightarrow> rat list \<Rightarrow> peak_finder" where
  "fixed_peaks locs vals hm = (locs, vals)"

text \<open>A heatmap generator that answers with given heatmaps and the visibilities as weights.\<close>

definition fixed_heatmaps :: "arr3 \<Rightarrow> heatmap_generator" where
  "fixed_heatmaps hm hsz keypoints keypoints_visible sg = (hm, keypoints_visible)"

text \<open>A store holding the given arrays at the addresses \<open>0, 1, \<dots>\<close>.\<close>

definition store_of :: "arr3 list \<Rightarrow> store" where
  "store_of xs = \<lparr> arrays = (\<lambda>a. if a < length xs then xs ! a else []), next_ref = length xs \<rparr>"

text \<open>A peak finder that erases the array it is handed.\<close>

definition erasing_peaks :: "(rat \<times> rat) list \<Rightarrow> rat list \<Rightarrow> peak_finder_st" where
  "erasing_peaks locs vals h s = ((locs, vals), s\<lparr> arrays := (arrays s)(h := []) \<rparr>)"

section \<open>Properties\<close>

subsection \<open>Indexing and the coordinate grids\<close>

lemma np_index_nat:
  "np_index xs (int i) = (if i < length xs then Inr (xs ! i) else Inl IndexError)"
  by (simp add: np_index_def)

lemma np_index_0: "np_index xs 0 = (case xs of [] \<Rightarrow> Inl IndexError | x # _ \<Rightarrow> Inr x)"
  by (simp add: np_index_def split: list.splits)

lemma np_index_Inl: "np_index xs i = Inl e \<Longrightarrow> e = IndexError"
  by (simp add: np_index_def Let_def split: if_splits)

lemma getitem3_nat:
  "getitem3 a (int i) (int y) (int x) =
     (if i < length a \<and> y < length (a ! i) \<and> x < length (a ! i ! y)
      then Inr (a ! i ! y ! x) else Inl IndexError)"
  by (simp add: getitem3_def np_index_nat)

lemma getitem3_Inl: "getitem3 a i y x = Inl e \<Longrightarrow> e = IndexError"
  by (auto simp: getitem3_def split: sum.splits dest: np_index_Inl)

lemma length_np_arange: "length (np_arange n) = nat n"
  by (simp add: np_arange_def)

lemma nth_np_arange: "k < nat n \<Longrightarrow> np_arange n ! k = int k"
  by (simp add: np_arange_def)

lemma grid_shape:
  "length (x_range (SKPSHeatmap_init isz (W, H) sg)) = nat H"
  "length (y_range (SKPSHeatmap_init isz (W, H) sg)) = nat H"
  "r < nat H \<Longrightarrow> length (x_range (SKPSHeatmap_init isz (W, H) sg) ! r) = nat W"
  "r < nat H \<Longrightarrow> length (y_range (SKPSHeatmap_init isz (W, H) sg) ! r) = nat W"
  by (simp_all add: SKPSHeatmap_init_def np_meshgrid_ij_def Let_def length_np_arange)

lemma y_range_nth:
  "r < nat H \<Longrightarrow> c < nat W \<Longrightarrow> y_range (SKPSHeatmap_init isz (W, H) sg) ! r ! c = int r"
  by (simp add: SKPSHeatmap_init_def np_meshgrid_ij_def Let_def length_np_arange nth_np_arange)

lemma x_range_nth:
  "r < nat H \<Longrightarrow> c < nat W \<Longrightarrow> x_range (SKPSHeatmap_init isz (W, H) sg) ! r ! c = int c"
  by (simp add: SKPSHeatmap_init_def np_meshgrid_ij_def Let_def length_np_arange nth_np_arange)

lemma generate_offside_heatmap_Inl:
  "generate_offside_heatmap self hsz keypoints = Inl e \<Longrightarrow> e = IndexError"
  by (auto simp: generate_offside_heatmap_def Let_def split: sum.splits dest: np_index_Inl)

lemma generate_offside_heatmap_Cons:
  "generate_offside_heatmap self hsz (kp # rest) =
     Inr (np_transpose_201 (2 * length kp)
            (np_concatenate_last
               (broadcast_sub (map fst kp) (np_expand_dims_last (x_range self)))
               (broadcast_sub (map snd kp) (np_expand_dims_last (y_range self)))))"
  by (simp add: generate_offside_heatmap_def shape2_def np_index_0 Let_def)

text \<open>The cell \<open>[r, c]\<close> of the concatenated array of shape \<open>(H, W, 2K)\<close>.\<close>

lemma offside_map_cell:
  assumes "r < nat H" "c < nat W"
  shows "np_concatenate_last
           (broadcast_sub xs (np_expand_dims_last (x_range (SKPSHeatmap_init isz (W, H) sg))))
           (broadcast_sub ys (np_expand_dims_last (y_range (SKPSHeatmap_init isz (W, H) sg))))
         ! r ! c
       = map (\<lambda>a. a - of_nat c) xs @ map (\<lambda>a. a - of_nat r) ys"
  using assms
  by (simp add: np_concatenate_last_def broadcast_sub_def np_expand_dims_last_def
      grid_shape x_range_nth y_range_nth)

lemma offside_map_shape:
  "length (np_concatenate_last
           (broadcast_sub xs (np_expand_dims_last (x_range (SKPSHeatmap_init isz (W, H) sg))))
           (broadcast_sub ys (np_expand_dims_last (y_range (SKPSHeatmap_init isz (W, H) sg)))))
     = nat H"
  "r < nat H \<Longrightarrow> length (np_concatenate_last
           (broadcast_sub xs (np_expand_dims_last (x_range (SKPSHeatmap_init isz (W, H) sg))))
           (broadcast_sub ys (np_expand_dims_last (y_range (SKPSHeatmap_init isz (W, H) sg)))) ! r)
     = nat W"
  by (simp_all add: np_concatenate_last_def broadcast_sub_def np_expand_dims_last_def grid_shape)

lemma has_shape3_transpose:
  assumes "length m = A" "\<And>r. r < A \<Longrightarrow> length (m ! r) = B"
  shows "has_shape3 (np_transpose_201 C m) (C, A, B)"
  using assms
  by (auto simp: has_shape3_def np_transpose_201_def list_all_length)

lemma transpose_cell:
  "a < C \<Longrightarrow> r < length m \<Longrightarrow> c < length (m ! r) \<Longrightarrow>
     np_transpose_201 C m ! a ! r ! c = m ! r ! c ! a"
  by (simp add: np_transpose_201_def)

lemma generate_offside_heatmap_cells:
  assumes "generate_offside_heatmap (SKPSHeatmap_init isz (W, H) sg) hsz (kp # rest) = Inr off"
  shows "has_shape3 off (2 * length kp, nat H, nat W)"
    and "k < length kp \<Longrightarrow> r < nat H \<Longrightarrow> c < nat W \<Longrightarrow> off ! k ! r ! c = fst (kp ! k) - of_nat c"
    and "k < length kp \<Longrightarrow> r < nat H \<Longrightarrow> c < nat W \<Longrightarrow>
           off ! (length kp + k) ! r ! c = snd (kp ! k) - of_nat r"
proof -
  let ?m = "np_concatenate_last
           (broadcast_sub (map fst kp) (np_expand_dims_last (x_range (SKPSHeatmap_init isz (W, H) sg))))
           (broadcast_sub (map snd kp) (np_expand_dims_last (y_range (SKPSHeatmap_init isz (W, H) sg))))"
  from assms have off: "off = np_transpose_201 (2 * length kp) ?m"
    by (simp add: generate_offside_heatmap_Cons)
  show "has_shape3 off (2 * length kp, nat H, nat W)"
    unfolding off by (rule has_shape3_transpose) (simp_all add: offside_map_shape)
  {
    assume k: "k < length kp" and r: "r < nat H" and c: "c < nat W"
    have cell: "?m ! r ! c = map (\<lambda>a. a - of_nat c) (map fst kp) @ map (\<lambda>a. a - of_nat r) (map snd kp)"
      using r c by (rule offside_map_cell)
    have "off ! k ! r ! c = ?m ! r ! c ! k"
      unfolding off using k r c by (simp add: transpose_cell offside_map_shape)
    then show "off ! k ! r ! c = fst (kp ! k) - of_nat c"
      using k by (simp add: cell nth_append)
    have "off ! (length kp + k) ! r ! c = ?m ! r ! c ! (length kp + k)"
      unfolding off using k r c by (simp add: transpose_cell offside_map_shape)
    then show "off ! (length kp + k) ! r ! c = snd (kp ! k) - of_nat r"
      using k by (simp add: cell nth_append)
  }
qed

lemma encode_Inr:
  assumes "encode self g keypoints vis = Inr e"
  shows "length keypoints = 1"
    and "generate_offside_heatmap self (heatmap_size self)
           (div_scale keypoints (scale_factor self)) = Inr (displacements e)"
  using assms
  by (auto simp: encode_def Let_def shape2_def split: if_splits sum.splits)

subsection \<open>Encoding\<close>

text \<open>
  Claim C1. On a codec built by the constructor with heatmap size \<open>(W, H)\<close>, the
  displacement field returned by \<open>encode\<close> is the one computed by
  \<open>generate_offside_heatmap\<close> from the scaled keypoints; it has shape \<open>(2K, H, W)\<close>;
  for every keypoint \<open>k\<close> with scaled coordinate \<open>(kx, ky)\<close> and every cell
  \<open>(row, col)\<close>, channel \<open>k\<close> holds \<open>kx - col\<close> and channel \<open>K + k\<close> holds
  \<open>ky - row\<close>.
\<close>

theorem encode_offset_field_exact:
  assumes enc: "encode self g keypoints vis = Inr e"
    and self: "self = SKPSHeatmap_init isz (W, H) sg"
    and scaled: "scaled = div_scale keypoints (scale_factor self) ! 0"
    and K: "K = length scaled"
  shows "generate_offside_heatmap self (heatmap_size self)
           (div_scale keypoints (scale_factor self)) = Inr (displacements e)
       \<and> has_shape3 (displacements e) (2 * K, nat H, nat W)
       \<and> (\<forall>k<K. \<forall>row<nat H. \<forall>col<nat W.
            displacements e ! k ! row ! col = fst (scaled ! k) - of_nat col
          \<and> displacements e ! (K + k) ! row ! col = snd (scaled ! k) - of_nat row)"
proof -
  from enc have n: "length keypoints = 1"
    and gen: "generate_offside_heatmap self (heatmap_size self)
           (div_scale keypoints (scale_factor self)) = Inr (displacements e)"
    by (rule encode_Inr)+
  from n obtain kp where kps: "keypoints = [kp]"
    by (cases keypoints) auto
  have ds: "div_scale keypoints (scale_factor self) = [scaled]"
    by (simp add: scaled kps div_scale_def)
  from gen have gen': "generate_offside_heatmap (SKPSHeatmap_init isz (W, H) sg)
      (heatmap_size self) [scaled] = Inr (displacements e)"
    by (simp only: ds) (simp only: self)
  note cells = generate_offside_heatmap_cells [OF gen', folded K]
  show ?thesis
    using gen cells by simp
qed

theorem encode_offset_field_exact_witness:
  "\<exists>e. encode (SKPSHeatmap_init (8, 8) (4, 4) 2) (fixed_heatmaps [[[1]]]) [[(5, 3)]] None = Inr e
     \<and> has_shape3 (displacements e) (2, 4, 4)
     \<and> displacements e ! 0 ! 1 ! 2 = 1 / 2
     \<and> displacements e ! 1 ! 1 ! 2 = 1 / 2"
proof -
  let ?self = "SKPSHeatmap_init (8, 8) (4, 4) 2"
  let ?g = "fixed_heatmaps [[[1]]]"
  have sf: "scale_factor ?self = (2, 2)"
    by (simp add: SKPSHeatmap_init_def Let_def)
  obtain e where e: "encode ?self ?g [[(5, 3)]] None = Inr e"
    by (simp add: encode_def shape2_def np_ones_def np_index_0 Let_def
        generate_offside_heatmap_Cons div_scale_def fixed_heatmaps_def)
  have sc: "div_scale [[(5, 3)]] (scale_factor ?self) ! 0 = [(5 / 2, 3 / 2)]"
    by (simp add: sf div_scale_def)
  from encode_offset_field_exact [OF e refl sc [symmetric], of 1]
  show ?thesis using e by simp
qed

text \<open>
  Claim C5. A keypoint array whose leading dimension \<open>N\<close> is not 1 makes \<open>encode\<close>
  raise the assertion error; with \<open>N = 1\<close> the assertion passes, whatever else happens.
\<close>

theorem encode_requires_single_instance:
  "(length keypoints \<noteq> 1 \<longrightarrow> encode self g keypoints vis = Inl AssertionError)
   \<and> (length keypoints = 1 \<longrightarrow> encode self g keypoints vis \<noteq> Inl AssertionError)"
  by (auto simp: encode_def shape2_def Let_def split: sum.splits
      dest: generate_offside_heatmap_Inl np_index_Inl)

theorem encode_requires_single_instance_witness:
  "length [[(5, 3)], [(1, 1 :: rat)]] \<noteq> 1
   \<and> encode (SKPSHeatmap_init (8, 8) (4, 4) 2) (fixed_heatmaps [[[1]]])
        [[(5, 3)], [(1, 1)]] None = Inl AssertionError
   \<and> length [[(5 :: rat, 3 :: rat)]] = 1
   \<and> encode (SKPSHeatmap_init (8, 8) (4, 4) 2) (fixed_heatmaps [[[1]]])
        [[(5, 3)]] None \<noteq> Inl AssertionError"
  using encode_requires_single_instance
    [of "[[(5, 3)], [(1, 1)]]" "SKPSHeatmap_init (8, 8) (4, 4) 2" "fixed_heatmaps [[[1]]]" None]
    encode_requires_single_instance
    [of "[[(5, 3)]]" "SKPSHeatmap_init (8, 8) (4, 4) 2" "fixed_heatmaps [[[1]]]" None]
  by simp

text \<open>
  Claim C7. Calling \<open>encode\<close> without visibilities is the same as calling it with an
  all-ones array of shape \<open>(N, K)\<close>.
\<close>

theorem encode_default_visibility:
  "encode self g keypoints None = encode self g keypoints (Some (np_ones (shape2 keypoints)))"
  by (simp add: encode_def)

text \<open>
  Claim C9. Two successful \<open>encode\<close> calls on the same keypoints return the same
  displacement field, whatever the two visibility arguments are.
\<close>

theorem encode_displacements_ignore_visibility:
  assumes "encode self g keypoints vis1 = Inr e1"
    and "encode self g keypoints vis2 = Inr e2"
  shows "displacements e1 = displacements e2"
  using encode_Inr(2) [OF assms(1)] encode_Inr(2) [OF assms(2)] by simp

theorem encode_displacements_ignore_visibility_witness:
  "\<exists>e1 e2.
       encode (SKPSHeatmap_init (8, 8) (4, 4) 2) (fixed_heatmaps [[[1]]])
         [[(5, 3)]] (Some [[1]]) = Inr e1
     \<and> encode (SKPSHeatmap_init (8, 8) (4, 4) 2) (fixed_heatmaps [[[1]]])
         [[(5, 3)]] (Some [[0]]) = Inr e2
     \<and> keypoint_weights e1 \<noteq> keypoint_weights e2
     \<and> displacements e1 = displacements e2"
proof -
  let ?self = "SKPSHeatmap_init (8, 8) (4, 4) 2"
  let ?g = "fixed_heatmaps [[[1]]]"
  obtain e1 where e1: "encode ?self ?g [[(5, 3)]] (Some [[1]]) = Inr e1"
    and w1: "keypoint_weights e1 = [1]"
    by (simp add: encode_def shape2_def np_index_0 Let_def generate_offside_heatmap_Cons
        div_scale_def fixed_heatmaps_def)
  obtain e2 where e2: "encode ?self ?g [[(5, 3)]] (Some [[0]]) = Inr e2"
    and w2: "keypoint_weights e2 = [0]"
    by (simp add: encode_def shape2_def np_index_0 Let_def generate_offside_heatmap_Cons
        div_scale_def fixed_heatmaps_def)
  from encode_displacements_ignore_visibility [OF e1 e2]
  show ?thesis using e1 e2 w1 w2 by auto
qed

subsection \<open>The decoding loop\<close>

lemma getitem3_nonneg:
  assumes "0 \<le> y" "0 \<le> x"
  shows "getitem3 a (int i) y x =
     (if in_bounds3 a i (nat y) (nat x) then Inr (a ! i ! nat y ! nat x) else Inl IndexError)"
proof -
  from assms have "getitem3 a (int i) y x = getitem3 a (int i) (int (nat y)) (int (nat x))"
    by simp
  then show ?thesis
    by (simp only: getitem3_nat in_bounds3_def)
qed

lemma in_bounds3_shape:
  "has_shape3 a (C, H, W) \<Longrightarrow> in_bounds3 a i y x \<longleftrightarrow> i < C \<and> y < H \<and> x < W"
  by (auto simp: has_shape3_def in_bounds3_def list_all_length)

lemma in_bounds3_take:
  "in_bounds3 (take K a) i y x \<longleftrightarrow> i < K \<and> in_bounds3 a i y x"
  by (auto simp: in_bounds3_def)

lemma in_bounds3_drop:
  "in_bounds3 (drop K a) i y x \<longleftrightarrow> in_bounds3 a (K + i) y x"
  by (auto simp: in_bounds3_def)


lemma clamp_peak_nonneg: "0 \<le> fst (clamp_peak xy)" "0 \<le> snd (clamp_peak xy)"
  by (simp_all add: clamp_peak_def)

lemma decode_channel_Inl: "decode_channel ki ox oy i = Inl e \<Longrightarrow> e = IndexError"
  by (auto simp: decode_channel_def Let_def split: sum.splits dest: np_index_Inl getitem3_Inl)

lemma decode_channel_eq:
  "decode_channel ki (take K off) (drop K off) i =
     (if i < length ki \<and> i < K
          \<and> in_bounds3 off i (nat (snd (clamp_peak (ki ! i)))) (nat (fst (clamp_peak (ki ! i))))
          \<and> in_bounds3 off (K + i) (nat (snd (clamp_peak (ki ! i)))) (nat (fst (clamp_peak (ki ! i))))
      then Inr (of_int (fst (clamp_peak (ki ! i)))
                  + off ! i ! nat (snd (clamp_peak (ki ! i))) ! nat (fst (clamp_peak (ki ! i))),
                of_int (snd (clamp_peak (ki ! i)))
                  + off ! (K + i) ! nat (snd (clamp_peak (ki ! i))) ! nat (fst (clamp_peak (ki ! i))))
      else Inl IndexError)"
proof (cases "i < length ki")
  case False
  then show ?thesis by (simp add: decode_channel_def np_index_nat)
next
  case True
  let ?x = "fst (clamp_peak (ki ! i))" and ?y = "snd (clamp_peak (ki ! i))"
  have gx: "getitem3 (take K off) (int i) ?y ?x =
      (if i < K \<and> in_bounds3 off i (nat ?y) (nat ?x) then Inr (off ! i ! nat ?y ! nat ?x)
       else Inl IndexError)"
    by (simp add: getitem3_nonneg clamp_peak_nonneg in_bounds3_take)
  have gy: "getitem3 (drop K off) (int i) ?y ?x =
      (if in_bounds3 off (K + i) (nat ?y) (nat ?x) then Inr (off ! (K + i) ! nat ?y ! nat ?x)
       else Inl IndexError)"
  proof (cases "in_bounds3 off (K + i) (nat ?y) (nat ?x)")
    case True
    then have "K + i < length off" by (simp add: in_bounds3_def)
    then have "drop K off ! i = off ! (K + i)" by simp
    with True show ?thesis
      by (simp add: getitem3_nonneg clamp_peak_nonneg in_bounds3_drop)
  next
    case False
    then show ?thesis
      by (simp add: getitem3_nonneg clamp_peak_nonneg in_bounds3_drop)
  qed
  show ?thesis
    using True by (simp add: decode_channel_def np_index_nat Let_def gx gy)
qed

lemma decode_loop_Inl: "decode_loop ki ox oy js kd = Inl e \<Longrightarrow> e = IndexError"
  by (induction js arbitrary: kd) (auto split: sum.splits dest: decode_channel_Inl)

lemma decode_loop_Inr_channels:
  "decode_loop ki ox oy js kd = Inr kd' \<Longrightarrow> j \<in> set js \<Longrightarrow> \<exists>v. decode_channel ki ox oy j = Inr v"
  by (induction js arbitrary: kd) (auto split: sum.splits)

lemma decode_loop_total:
  "(\<And>j. j \<in> set js \<Longrightarrow> \<exists>v. decode_channel ki ox oy j = Inr v) \<Longrightarrow>
     \<exists>kd'. decode_loop ki ox oy js kd = Inr kd'"
proof (induction js arbitrary: kd)
  case Nil
  then show ?case by simp
next
  case (Cons j js)
  from Cons.prems [of j] obtain v where v: "decode_channel ki ox oy j = Inr v" by auto
  from Cons.IH [of "kd[j := v]"] Cons.prems show ?case by (simp add: v)
qed

lemma decode_loop_length:
  "decode_loop ki ox oy js kd = Inr kd' \<Longrightarrow> length kd' = length kd"
  by (induction js arbitrary: kd) (auto split: sum.splits)

lemma decode_loop_nth:
  "decode_loop ki ox oy js kd = Inr kd' \<Longrightarrow> i < length kd \<Longrightarrow>
     kd' ! i = (if i \<in> set js then projr (decode_channel ki ox oy i) else kd ! i)"
proof (induction js arbitrary: kd)
  case Nil
  then show ?case by simp
next
  case (Cons j js)
  from Cons.prems(1) obtain v where v: "decode_channel ki ox oy j = Inr v"
    and rest: "decode_loop ki ox oy js (kd[j := v]) = Inr kd'"
    by (auto split: sum.splits)
  from Cons.IH [OF rest] Cons.prems(2)
  have "kd' ! i = (if i \<in> set js then projr (decode_channel ki ox oy i) else kd[j := v] ! i)"
    by simp
  then show ?case
    using Cons.prems(2) by (auto simp: v nth_list_update)
qed


lemma decode_body_Inl: "decode_body self K peaks vals off = Inl e \<Longrightarrow> e = IndexError"
  by (auto simp: decode_body_def Let_def split: sum.splits dest: decode_loop_Inl)

lemma decode_body_Inr_iff:
  "(\<exists>r. decode_body self K peaks vals off = Inr r) \<longleftrightarrow>
     (\<forall>k<K. \<exists>v. decode_channel (astype_int32_rows peaks) (take K off) (drop K off) k = Inr v)"
proof
  assume "\<exists>r. decode_body self K peaks vals off = Inr r"
  then obtain kd where "decode_loop (astype_int32_rows peaks) (take K off) (drop K off) [0..<K]
      (map (\<lambda>_. (0, 0)) peaks) = Inr kd"
    by (auto simp: decode_body_def Let_def split: sum.splits)
  from decode_loop_Inr_channels [OF this]
  show "\<forall>k<K. \<exists>v. decode_channel (astype_int32_rows peaks) (take K off) (drop K off) k = Inr v"
    by simp
next
  assume "\<forall>k<K. \<exists>v. decode_channel (astype_int32_rows peaks) (take K off) (drop K off) k = Inr v"
  then have "\<exists>kd. decode_loop (astype_int32_rows peaks) (take K off) (drop K off) [0..<K]
      (map (\<lambda>_. (0, 0)) peaks) = Inr kd"
    by (intro decode_loop_total) simp
  then show "\<exists>r. decode_body self K peaks vals off = Inr r"
    by (auto simp: decode_body_def Let_def)
qed

lemma decode_body_Inr:
  assumes "decode_body self K peaks vals off = Inr (keypoints, scores)"
  shows "scores = [vals]"
    and "length keypoints = 1"
    and "length (keypoints ! 0) = length peaks"
    and "k < K \<Longrightarrow> k < length peaks"
    and "k < K \<Longrightarrow>
           decode_channel (astype_int32_rows peaks) (take K off) (drop K off) k = Inr v \<Longrightarrow>
           keypoints ! 0 ! k = (fst v * fst (scale_factor self), snd v * snd (scale_factor self))"
    and "K \<le> k \<Longrightarrow> k < length peaks \<Longrightarrow> keypoints ! 0 ! k = (0, 0)"
proof -
  from assms obtain kd where loop: "decode_loop (astype_int32_rows peaks) (take K off) (drop K off)
      [0..<K] (map (\<lambda>_. (0, 0)) peaks) = Inr kd"
    and kps: "keypoints = [mul_scale kd (scale_factor self)]" and sc: "scores = [vals]"
    by (auto simp: decode_body_def Let_def split: sum.splits)
  have len: "length kd = length peaks"
    using decode_loop_length [OF loop] by simp
  show "scores = [vals]" by (rule sc)
  show "length keypoints = 1" by (simp add: kps)
  show "length (keypoints ! 0) = length peaks" by (simp add: kps mul_scale_def len)
  {
    assume k: "k < K"
    from decode_loop_Inr_channels [OF loop, of k] k
    obtain w where w: "decode_channel (astype_int32_rows peaks) (take K off) (drop K off) k = Inr w"
      by auto
    then show "k < length peaks"
      by (simp add: decode_channel_eq astype_int32_rows_def split: if_splits)
    then have kd: "kd ! k = w"
      using decode_loop_nth [OF loop, of k] k by (simp add: w)
    assume "decode_channel (astype_int32_rows peaks) (take K off) (drop K off) k = Inr v"
    with w have "w = v" by simp
    with kd \<open>k < length peaks\<close> len
    show "keypoints ! 0 ! k = (fst v * fst (scale_factor self), snd v * snd (scale_factor self))"
      by (simp add: kps mul_scale_def)
  }
  {
    assume "K \<le> k" "k < length peaks"
    then have "kd ! k = (0, 0)"
      using decode_loop_nth [OF loop, of k] by simp
    with \<open>k < length peaks\<close> len show "keypoints ! 0 ! k = (0, 0)"
      by (simp add: kps mul_scale_def)
  }
qed

lemma decode_eq_body:
  "decode self pf encoded offside =
     decode_body self (length encoded) (fst (pf encoded)) (snd (pf encoded)) offside"
  by (simp add: decode_def Let_def)

lemma astype_int32_of_int:
  "- 2147483648 \<le> n \<Longrightarrow> n < 2147483648 \<Longrightarrow> astype_int32 (of_int n) = n"
  by (simp add: astype_int32_def)

lemma nth_astype_int32_rows:
  "k < length a \<Longrightarrow> astype_int32_rows a ! k = (astype_int32 (fst (a ! k)), astype_int32 (snd (a ! k)))"
  by (simp add: astype_int32_rows_def)

lemma decode_loop_cong:
  "(\<And>j. j \<in> set js \<Longrightarrow> decode_channel ki ox oy j = decode_channel ki ox' oy' j) \<Longrightarrow>
     decode_loop ki ox oy js kd = decode_loop ki ox' oy' js kd"
  by (induction js arbitrary: kd) (auto split: sum.splits)

lemma decode_channel_nonneg:
  assumes "k < length peaks" "k < K" "astype_int32_rows peaks ! k = (x, y)" "0 \<le> x" "0 \<le> y"
  shows "decode_channel (astype_int32_rows peaks) (take K off) (drop K off) k =
     (if in_bounds3 off k (nat y) (nat x) \<and> in_bounds3 off (K + k) (nat y) (nat x)
      then Inr (of_int x + off ! k ! nat y ! nat x, of_int y + off ! (K + k) ! nat y ! nat x)
      else Inl IndexError)"
proof -
  have "clamp_peak (astype_int32_rows peaks ! k) = (x, y)"
    using assms by (simp add: clamp_peak_def)
  with assms(1,2) show ?thesis
    by (simp add: decode_channel_eq astype_int32_rows_def)
qed

lemma decode_channel_neg:
  assumes "k < length peaks" "k < K" "astype_int32_rows peaks ! k = (x, y)" "x < 0 \<or> y < 0"
  shows "decode_channel (astype_int32_rows peaks) (take K off) (drop K off) k =
     (if in_bounds3 off k 0 0 \<and> in_bounds3 off (K + k) 0 0
      then Inr (off ! k ! 0 ! 0, off ! (K + k) ! 0 ! 0)
      else Inl IndexError)"
proof -
  have "clamp_peak (astype_int32_rows peaks ! k) = (0, 0)"
    using assms by (auto simp: clamp_peak_def)
  with assms(1,2) show ?thesis
    by (simp add: decode_channel_eq astype_int32_rows_def)
qed

lemma decode_channel_clamped:
  assumes "k < length peaks" "k < K"
  shows "decode_channel (astype_int32_rows peaks) (take K off) (drop K off) k =
     (let x = fst (clamp_peak (astype_int32_rows peaks ! k));
          y = snd (clamp_peak (astype_int32_rows peaks ! k))
      in if in_bounds3 off k (nat y) (nat x) \<and> in_bounds3 off (K + k) (nat y) (nat x)
         then Inr (of_int x + off ! k ! nat y ! nat x, of_int y + off ! (K + k) ! nat y ! nat x)
         else Inl IndexError)"
  using assms by (simp add: decode_channel_eq astype_int32_rows_def Let_def)

lemmas decode_eval =
  decode_def decode_body_def decode_channel_def np_index_def getitem3_def clamp_peak_def
  astype_int32_rows_def astype_int32_def mul_scale_def fixed_peaks_def Let_def
  SKPSHeatmap_init_def

subsection \<open>Decoding\<close>

text \<open>
  Claim C3. Let \<open>decode\<close> return, for \<open>K\<close> heatmap channels and a peak finder that
  answers with \<open>K\<close> locations and \<open>K\<close> scores. The keypoints have shape \<open>(1, K, 2)\<close>
  and the scores shape \<open>(1, K)\<close>. For every channel \<open>k\<close> whose integer peak \<open>(x, y)\<close> is
  non-negative, the cells \<open>[k, y, x]\<close> and \<open>[K + k, y, x]\<close> of the displacement field exist
  (the second is \<open>[k, y, x]\<close> of the y-offsets), and the decoded keypoint is
  \<open>(x + offside[k, y, x], y + offside[K + k, y, x])\<close> multiplied elementwise by the scale
  factor.
\<close>

theorem decode_subpixel_correction:
  assumes dec: "decode self pf encoded offside = Inr (keypoints, scores)"
    and K: "K = length encoded"
    and pf: "pf encoded = (peaks, vals)"
    and contract: "length peaks = K" "length vals = K"
  shows "length keypoints = 1 \<and> length (keypoints ! 0) = K
       \<and> length scores = 1 \<and> length (scores ! 0) = K \<and> scores ! 0 = vals
       \<and> (\<forall>k<K. \<forall>x y. astype_int32_rows peaks ! k = (x, y) \<and> 0 \<le> x \<and> 0 \<le> y \<longrightarrow>
            in_bounds3 offside k (nat y) (nat x) \<and> in_bounds3 offside (K + k) (nat y) (nat x)
          \<and> keypoints ! 0 ! k =
              ((of_int x + offside ! k ! nat y ! nat x) * fst (scale_factor self),
               (of_int y + offside ! (K + k) ! nat y ! nat x) * snd (scale_factor self)))"
proof -
  from dec have body: "decode_body self K peaks vals offside = Inr (keypoints, scores)"
    by (simp add: decode_eq_body K pf)
  note facts = decode_body_Inr [OF body]
  have shape: "length keypoints = 1 \<and> length (keypoints ! 0) = K
       \<and> length scores = 1 \<and> length (scores ! 0) = K \<and> scores ! 0 = vals"
    using facts(1,2,3) contract by simp
  have cells: "in_bounds3 offside k (nat y) (nat x) \<and> in_bounds3 offside (K + k) (nat y) (nat x)
          \<and> keypoints ! 0 ! k =
              ((of_int x + offside ! k ! nat y ! nat x) * fst (scale_factor self),
               (of_int y + offside ! (K + k) ! nat y ! nat x) * snd (scale_factor self))"
    if k: "k < K" and xy: "astype_int32_rows peaks ! k = (x, y)" and x: "0 \<le> x" and y: "0 \<le> y"
    for k x y
  proof -
    from k contract have kp: "k < length peaks" by simp
    note ch = decode_channel_nonneg [OF kp k xy x y, of offside]
    from body have "\<exists>r. decode_body self K peaks vals offside = Inr r" by blast
    then have "\<forall>k<K. \<exists>v. decode_channel (astype_int32_rows peaks) (take K offside)
        (drop K offside) k = Inr v"
      by (simp only: decode_body_Inr_iff)
    with k obtain v where v: "decode_channel (astype_int32_rows peaks) (take K offside)
        (drop K offside) k = Inr v"
      by blast
    with ch have inb: "in_bounds3 offside k (nat y) (nat x) \<and> in_bounds3 offside (K + k) (nat y) (nat x)"
      by (simp split: if_splits)
    with ch have "decode_channel (astype_int32_rows peaks) (take K offside) (drop K offside) k =
        Inr (of_int x + offside ! k ! nat y ! nat x, of_int y + offside ! (K + k) ! nat y ! nat x)"
      by simp
    from facts(5) [OF k this] inb show ?thesis by simp
  qed
  from shape cells show ?thesis by blast
qed

theorem decode_subpixel_correction_witness:
  "decode (SKPSHeatmap_init (4, 4) (2, 2) 2) (fixed_peaks [(1, 0)] [9 / 10])
      [[[0, 9 / 10], [0, 0]]]
      [[[3 / 2, 1 / 2], [3 / 2, 1 / 2]], [[1 / 2, 1 / 2], [- 1 / 2, - 1 / 2]]]
     = Inr ([[(3, 1)]], [[9 / 10]])
   \<and> astype_int32_rows [(1, 0)] ! 0 = (1, 0)
   \<and> [[(3 :: rat, 1 :: rat)]] ! 0 ! 0 = ((1 + 1 / 2) * 2, (0 + 1 / 2) * 2)"
proof -
  let ?self = "SKPSHeatmap_init (4, 4) (2, 2) 2"
  let ?pf = "fixed_peaks [(1, 0)] [9 / 10]"
  let ?enc = "[[[0 :: rat, 9 / 10], [0, 0]]]"
  let ?off = "[[[3 / 2, 1 / 2], [3 / 2, 1 / 2]], [[1 / 2, 1 / 2], [- 1 / 2, - 1 / 2 :: rat]]]"
  have K: "1 = length ?enc" by simp
  have pf: "?pf ?enc = ([(1, 0)], [9 / 10])" by (simp add: fixed_peaks_def)
  have xy: "astype_int32_rows [(1, 0)] ! 0 = (1, 0)"
    by (simp add: astype_int32_rows_def astype_int32_def)
  have dec: "decode ?self ?pf ?enc ?off = Inr ([[(3, 1)]], [[9 / 10]])"
    by (simp add: decode_eval)
  from decode_subpixel_correction [OF dec K pf] xy
  show ?thesis using dec by simp
qed

text \<open>
  Claim C2, as amended. When the peak finder answers \<open>(-1, -1)\<close> for channel \<open>k\<close>, the
  loop reads the displacement field at the clamped cell \<open>[k, 0, 0]\<close> and \<open>[K + k, 0, 0]\<close>,
  not at a wrapped index, and raises \<^verbatim>\<open>IndexError\<close> for that channel only when one of
  the two cells does not exist. A \<open>decode\<close> that returns yields for that channel
  \<open>(0 + offside[k, 0, 0], 0 + offside[K + k, 0, 0])\<close> multiplied by the scale factor: the
  offsets stored at cell \<open>(0, 0)\<close> are added to the clamped peak.
\<close>

theorem decode_negative_peak_clamped:
  assumes K: "K = length encoded"
    and pf: "pf encoded = (peaks, vals)"
    and k: "k < K"
    and kp: "k < length peaks"
    and neg: "peaks ! k = (- 1, - 1)"
  shows "decode_channel (astype_int32_rows peaks) (take K offside) (drop K offside) k =
           (if in_bounds3 offside k 0 0 \<and> in_bounds3 offside (K + k) 0 0
            then Inr (offside ! k ! 0 ! 0, offside ! (K + k) ! 0 ! 0)
            else Inl IndexError)
       \<and> (\<forall>keypoints scores. decode self pf encoded offside = Inr (keypoints, scores) \<longrightarrow>
            in_bounds3 offside k 0 0 \<and> in_bounds3 offside (K + k) 0 0
          \<and> keypoints ! 0 ! k =
              (offside ! k ! 0 ! 0 * fst (scale_factor self),
               offside ! (K + k) ! 0 ! 0 * snd (scale_factor self)))"
proof -
  have xy: "astype_int32_rows peaks ! k = (- 1, - 1)"
    using kp neg by (simp add: astype_int32_rows_def astype_int32_def)
  have ch: "decode_channel (astype_int32_rows peaks) (take K offside) (drop K offside) k =
           (if in_bounds3 offside k 0 0 \<and> in_bounds3 offside (K + k) 0 0
            then Inr (offside ! k ! 0 ! 0, offside ! (K + k) ! 0 ! 0)
            else Inl IndexError)"
    by (rule decode_channel_neg [OF kp k xy]) simp
  have res: "in_bounds3 offside k 0 0 \<and> in_bounds3 offside (K + k) 0 0
          \<and> keypoints ! 0 ! k =
              (offside ! k ! 0 ! 0 * fst (scale_factor self),
               offside ! (K + k) ! 0 ! 0 * snd (scale_factor self))"
    if dec: "decode self pf encoded offside = Inr (keypoints, scores)" for keypoints scores
  proof -
    from dec have body: "decode_body self K peaks vals offside = Inr (keypoints, scores)"
      by (simp add: decode_eq_body K pf)
    then have "\<exists>r. decode_body self K peaks vals offside = Inr r" by blast
    then have "\<forall>k<K. \<exists>v. decode_channel (astype_int32_rows peaks) (take K offside)
        (drop K offside) k = Inr v"
      by (simp only: decode_body_Inr_iff)
    with k ch have inb: "in_bounds3 offside k 0 0 \<and> in_bounds3 offside (K + k) 0 0"
      by (auto split: if_splits)
    with ch have "decode_channel (astype_int32_rows peaks) (take K offside) (drop K offside) k =
        Inr (offside ! k ! 0 ! 0, offside ! (K + k) ! 0 ! 0)"
      by simp
    from decode_body_Inr(5) [OF body k this] inb show ?thesis by simp
  qed
  from ch res show ?thesis by blast
qed

theorem decode_negative_peak_clamped_witness:
  "length [[[0 :: rat, 0], [0, 0]]] = 1
   \<and> fixed_peaks [(- 1, - 1)] [0] [[[0, 0], [0, 0]]] = ([(- 1, - 1)], [0])
   \<and> decode (SKPSHeatmap_init (4, 4) (2, 2) 2) (fixed_peaks [(- 1, - 1)] [0])
      [[[0, 0], [0, 0]]]
      [[[3 / 2, 1 / 2], [3 / 2, 1 / 2]], [[1 / 2, 1 / 2], [- 1 / 2, - 1 / 2]]]
     = Inr ([[(3, 1)]], [[0]])
   \<and> [[(3 :: rat, 1 :: rat)]] ! 0 ! 0 = (3 / 2 * 2, 1 / 2 * 2)"
proof -
  let ?self = "SKPSHeatmap_init (4, 4) (2, 2) 2"
  let ?pf = "fixed_peaks [(- 1, - 1)] [0]"
  let ?enc = "[[[0 :: rat, 0], [0, 0]]]"
  let ?off = "[[[3 / 2, 1 / 2], [3 / 2, 1 / 2]], [[1 / 2, 1 / 2], [- 1 / 2, - 1 / 2 :: rat]]]"
  have K: "1 = length ?enc" by simp
  have pf: "?pf ?enc = ([(- 1, - 1)], [0])" by (simp add: fixed_peaks_def)
  have dec: "decode ?self ?pf ?enc ?off = Inr ([[(3, 1)]], [[0]])"
    by (simp add: decode_eval)
  from decode_negative_peak_clamped [where pf = ?pf and encoded = ?enc and k = 0
      and offside = ?off and self = ?self, OF K pf] dec
  show ?thesis
    by (simp add: fixed_peaks_def)
qed

text \<open>
  Claim C2, as stated, fails: the heatmap is empty, the peak finder answers \<open>(-1, -1)\<close>,
  the displacement field is the one \<open>encode\<close> produces for the keypoint \<open>(3, 1)\<close> on a
  \<open>2 \<times> 2\<close> heatmap of a \<open>4 \<times> 4\<close> image, and \<open>decode\<close> answers \<open>(3, 1)\<close>, not
  \<open>(0, 0)\<close> scaled.
\<close>

theorem decode_negative_peak_counterexample:
  "decode (SKPSHeatmap_init (4, 4) (2, 2) 2) (fixed_peaks [(- 1, - 1)] [0])
      [[[0, 0], [0, 0]]]
      [[[3 / 2, 1 / 2], [3 / 2, 1 / 2]], [[1 / 2, 1 / 2], [- 1 / 2, - 1 / 2]]]
     = Inr ([[(3, 1)]], [[0]])
   \<and> (3 :: rat, 1 :: rat) \<noteq>
       (0 * fst (scale_factor (SKPSHeatmap_init (4, 4) (2, 2) 2)),
        0 * snd (scale_factor (SKPSHeatmap_init (4, 4) (2, 2) 2)))"
  by (simp add: decode_eval)

text \<open>
  Claim C10, as amended. Let the displacement field have shape \<open>(2K, H, W)\<close> and the peak
  finder answer with \<open>K\<close> locations, and let \<open>(x, y)\<close> be the integer peak of a channel
  after the conversion to 32-bit integers. When both \<open>x\<close> and \<open>y\<close> are non-negative and
  \<open>x \<ge> W\<close> or \<open>y \<ge> H\<close>, \<open>decode\<close> raises \<^verbatim>\<open>IndexError\<close>: there is no clamp or check on
  the upper side. When \<open>x\<close> or \<open>y\<close> is negative, both are reset to 0, whatever the other
  one is. So \<open>decode\<close> returns exactly when every integer peak is either reset to the cell
  \<open>(0, 0)\<close> of a non-empty grid or satisfies \<open>0 \<le> x < W\<close> and \<open>0 \<le> y < H\<close>.
\<close>

theorem decode_peak_upper_bound_unchecked:
  assumes shape: "has_shape3 offside (2 * K, H, W)"
    and K: "K = length encoded"
    and pf: "pf encoded = (peaks, vals)"
    and contract: "length peaks = K"
  shows "(\<forall>k<K. \<forall>x y. astype_int32_rows peaks ! k = (x, y) \<and> 0 \<le> x \<and> 0 \<le> y
              \<and> (int W \<le> x \<or> int H \<le> y) \<longrightarrow>
            decode self pf encoded offside = Inl IndexError)
       \<and> ((\<exists>r. decode self pf encoded offside = Inr r) \<longleftrightarrow>
            (\<forall>k<K. \<forall>x y. astype_int32_rows peaks ! k = (x, y) \<longrightarrow>
               (if x < 0 \<or> y < 0 then 0 < W \<and> 0 < H else x < int W \<and> y < int H)))"
proof -
  have dec: "decode self pf encoded offside = decode_body self K peaks vals offside"
    by (simp add: decode_eq_body K pf)
  have ch: "(\<exists>v. decode_channel (astype_int32_rows peaks) (take K offside) (drop K offside) k = Inr v)
      \<longleftrightarrow> (if x < 0 \<or> y < 0 then 0 < W \<and> 0 < H else x < int W \<and> y < int H)"
    if k: "k < K" and xy: "astype_int32_rows peaks ! k = (x, y)" for k x y
  proof (cases "x < 0 \<or> y < 0")
    case True
    from k contract have kp: "k < length peaks" by simp
    show ?thesis
      using True k by (auto simp: decode_channel_neg [OF kp k xy True] in_bounds3_shape [OF shape])
  next
    case False
    from k contract have kp: "k < length peaks" by simp
    from False have x: "0 \<le> x" and y: "0 \<le> y" by auto
    show ?thesis
      using False k x y
      by (auto simp: decode_channel_nonneg [OF kp k xy x y] in_bounds3_shape [OF shape])
  qed
  have total: "(\<exists>r. decode self pf encoded offside = Inr r) \<longleftrightarrow>
            (\<forall>k<K. \<forall>x y. astype_int32_rows peaks ! k = (x, y) \<longrightarrow>
               (if x < 0 \<or> y < 0 then 0 < W \<and> 0 < H else x < int W \<and> y < int H))"
    unfolding dec decode_body_Inr_iff
  proof (intro iffI allI impI)
    fix k x y
    assume "\<forall>k<K. \<exists>v. decode_channel (astype_int32_rows peaks) (take K offside) (drop K offside) k = Inr v"
      and "k < K" and "astype_int32_rows peaks ! k = (x, y)"
    then show "if x < 0 \<or> y < 0 then 0 < W \<and> 0 < H else x < int W \<and> y < int H"
      using ch [of k x y] by blast
  next
    fix k
    assume a: "\<forall>k<K. \<forall>x y. astype_int32_rows peaks ! k = (x, y) \<longrightarrow>
               (if x < 0 \<or> y < 0 then 0 < W \<and> 0 < H else x < int W \<and> y < int H)"
      and k: "k < K"
    obtain x y where xy: "astype_int32_rows peaks ! k = (x, y)"
      by (cases "astype_int32_rows peaks ! k")
    with a k have "if x < 0 \<or> y < 0 then 0 < W \<and> 0 < H else x < int W \<and> y < int H"
      by blast
    with ch [OF k xy]
    show "\<exists>v. decode_channel (astype_int32_rows peaks) (take K offside) (drop K offside) k = Inr v"
      by blast
  qed
  have upper: "decode self pf encoded offside = Inl IndexError"
    if k: "k < K" and xy: "astype_int32_rows peaks ! k = (x, y)" and x: "0 \<le> x" and y: "0 \<le> y"
      and out: "int W \<le> x \<or> int H \<le> y" for k x y
  proof (cases "decode self pf encoded offside")
    case (Inl e)
    then show ?thesis
      using decode_body_Inl [of self K peaks vals offside e] by (simp add: dec)
  next
    case (Inr r)
    then have "\<exists>r. decode self pf encoded offside = Inr r" by blast
    with total k xy have "if x < 0 \<or> y < 0 then 0 < W \<and> 0 < H else x < int W \<and> y < int H"
      by blast
    with x y out show ?thesis by auto
  qed
  from upper total show ?thesis by blast
qed

theorem decode_peak_upper_bound_unchecked_witness:
  "has_shape3 [[[3 / 2, 1 / 2], [3 / 2, 1 / 2]], [[1 / 2, 1 / 2], [- 1 / 2, - 1 / 2 :: rat]]] (2 * 1, 2, 2)
   \<and> astype_int32_rows [(2, 0)] ! 0 = (2, 0)
   \<and> decode (SKPSHeatmap_init (4, 4) (2, 2) 2) (fixed_peaks [(2, 0)] [9 / 10])
      [[[0, 9 / 10], [0, 0]]]
      [[[3 / 2, 1 / 2], [3 / 2, 1 / 2]], [[1 / 2, 1 / 2], [- 1 / 2, - 1 / 2]]]
     = Inl IndexError"
proof -
  let ?self = "SKPSHeatmap_init (4, 4) (2, 2) 2"
  let ?pf = "fixed_peaks [(2, 0)] [9 / 10]"
  let ?enc = "[[[0 :: rat, 9 / 10], [0, 0]]]"
  let ?off = "[[[3 / 2, 1 / 2], [3 / 2, 1 / 2]], [[1 / 2, 1 / 2], [- 1 / 2, - 1 / 2 :: rat]]]"
  have shape: "has_shape3 ?off (2 * 1, 2, 2)" by (simp add: has_shape3_def)
  have K: "1 = length ?enc" by simp
  have pf: "?pf ?enc = ([(2, 0)], [9 / 10])" by (simp add: fixed_peaks_def)
  have len: "length [(2 :: rat, 0 :: rat)] = 1" by simp
  have xy: "astype_int32_rows [(2, 0)] ! 0 = (2, 0)"
    by (simp add: astype_int32_rows_def astype_int32_def)
  from decode_peak_upper_bound_unchecked [where pf = ?pf and encoded = ?enc and self = ?self,
      OF shape K pf len] xy
  have "decode ?self ?pf ?enc ?off = Inl IndexError" by auto
  with shape xy show ?thesis by simp
qed

text \<open>
  Claim C10, as stated, fails: on a \<open>2 \<times> 2\<close> grid the peak \<open>(-1, 5)\<close> has \<open>y \<ge> H\<close>, yet
  the negative \<open>x\<close> resets both coordinates, the lookup is made at the cell \<open>(0, 0)\<close>, and
  \<open>decode\<close> returns.
\<close>

theorem decode_peak_upper_bound_counterexample:
  "has_shape3 [[[3 / 2, 1 / 2], [3 / 2, 1 / 2]], [[1 / 2, 1 / 2], [- 1 / 2, - 1 / 2 :: rat]]] (2 * 1, 2, 2)
   \<and> astype_int32_rows [(- 1, 5)] ! 0 = (- 1, 5)
   \<and> int 2 \<le> 5
   \<and> decode (SKPSHeatmap_init (4, 4) (2, 2) 2) (fixed_peaks [(- 1, 5)] [0])
      [[[0, 0], [0, 0]]]
      [[[3 / 2, 1 / 2], [3 / 2, 1 / 2]], [[1 / 2, 1 / 2], [- 1 / 2, - 1 / 2]]]
     = Inr ([[(3, 1)]], [[0]])"
  by (simp add: decode_eval has_shape3_def)

text \<open>
  A reported peak beyond the 32-bit range is converted to a negative integer, and is
  reset like any other negative peak: \<open>decode\<close> returns.
\<close>

lemma decode_peak_beyond_int32:
  "astype_int32_rows [(3000000000, 0)] ! 0 = (- 2147483648, 0)
   \<and> decode (SKPSHeatmap_init (4, 4) (2, 2) 2) (fixed_peaks [(3000000000, 0)] [0])
      [[[0, 0], [0, 0]]]
      [[[3 / 2, 1 / 2], [3 / 2, 1 / 2]], [[1 / 2, 1 / 2], [- 1 / 2, - 1 / 2]]]
     = Inr ([[(3, 1)]], [[0]])"
  by (simp add: decode_eval)

text \<open>
  Claim C6, as amended. \<open>decode\<close> does not compare the channel count of the displacement
  field with \<open>K\<close>. With fewer than \<open>2K\<close> channels it raises \<^verbatim>\<open>IndexError\<close> from a
  lookup; with more than \<open>2K\<close> channels it does not fail on that account: it uses the
  channels \<open>k\<close> and \<open>K + k\<close> for \<open>k < K\<close> and ignores the others.
\<close>

theorem decode_channel_count_unchecked:
  assumes K: "K = length encoded"
  shows "(length offside < 2 * K \<longrightarrow> decode self pf encoded offside = Inl IndexError)
       \<and> (2 * K \<le> length offside \<longrightarrow>
            decode self pf encoded offside = decode self pf encoded (take (2 * K) offside))"
proof -
  obtain peaks vals where pf: "pf encoded = (peaks, vals)"
    by (cases "pf encoded")
  have dec: "decode self pf encoded off = decode_body self K peaks vals off" for off
    by (simp add: decode_eq_body K pf)
  have short: "decode self pf encoded offside = Inl IndexError" if len: "length offside < 2 * K"
  proof (cases "decode self pf encoded offside")
    case (Inl e)
    then show ?thesis
      using decode_body_Inl [of self K peaks vals offside e] by (simp add: dec)
  next
    case (Inr r)
    then have "\<exists>r. decode_body self K peaks vals offside = Inr r" by (simp add: dec)
    then have all: "\<forall>k<K. \<exists>v. decode_channel (astype_int32_rows peaks) (take K offside)
        (drop K offside) k = Inr v"
      by (simp only: decode_body_Inr_iff)
    from len have "K - 1 < K" by simp
    with all obtain v where "decode_channel (astype_int32_rows peaks) (take K offside)
        (drop K offside) (K - 1) = Inr v"
      by blast
    then have "in_bounds3 offside (K + (K - 1)) (nat (snd (clamp_peak (astype_int32_rows peaks ! (K - 1)))))
        (nat (fst (clamp_peak (astype_int32_rows peaks ! (K - 1)))))"
      by (simp add: decode_channel_eq split: if_splits)
    then have "K + (K - 1) < length offside"
      by (simp add: in_bounds3_def)
    with len show ?thesis by simp
  qed
  have long: "decode self pf encoded offside = decode self pf encoded (take (2 * K) offside)"
    if len: "2 * K \<le> length offside"
  proof -
    have inb: "in_bounds3 (take (2 * K) offside) i y x \<longleftrightarrow> in_bounds3 offside i y x"
      if "i < 2 * K" for i y x
      using that by (simp add: in_bounds3_take)
    have ch: "decode_channel (astype_int32_rows peaks) (take K offside) (drop K offside) j =
        decode_channel (astype_int32_rows peaks) (take K (take (2 * K) offside))
          (drop K (take (2 * K) offside)) j"
      if "j < K" for j
      using that by (simp only: decode_channel_eq) (simp add: inb)
    have "decode_loop (astype_int32_rows peaks) (take K offside) (drop K offside) [0..<K] kd =
        decode_loop (astype_int32_rows peaks) (take K (take (2 * K) offside))
          (drop K (take (2 * K) offside)) [0..<K] kd" for kd
      by (rule decode_loop_cong) (simp add: ch)
    then show ?thesis
      by (simp only: dec decode_body_def Let_def)
  qed
  from short long show ?thesis by blast
qed

theorem decode_channel_count_unchecked_witness:
  "length [[[1 / 2 :: rat]]] < 2 * length [[[1 :: rat]]]
   \<and> decode (SKPSHeatmap_init (2, 2) (1, 1) 2) (fixed_peaks [(0, 0)] [1])
        [[[1]]] [[[1 / 2]]] = Inl IndexError
   \<and> 2 * length [[[1 :: rat]]] \<le> length [[[1 / 2 :: rat]], [[1 / 2]], [[7]]]
   \<and> decode (SKPSHeatmap_init (2, 2) (1, 1) 2) (fixed_peaks [(0, 0)] [1])
        [[[1]]] [[[1 / 2]], [[1 / 2]], [[7]]]
     = decode (SKPSHeatmap_init (2, 2) (1, 1) 2) (fixed_peaks [(0, 0)] [1])
        [[[1]]] [[[1 / 2]], [[1 / 2]]]"
  using decode_channel_count_unchecked [of 1 "[[[1]]]" "[[[1 / 2]]]"
      "SKPSHeatmap_init (2, 2) (1, 1) 2" "fixed_peaks [(0, 0)] [1]"]
    decode_channel_count_unchecked [of 1 "[[[1]]]" "[[[1 / 2]], [[1 / 2]], [[7]]]"
      "SKPSHeatmap_init (2, 2) (1, 1) 2" "fixed_peaks [(0, 0)] [1]"]
  by simp

text \<open>
  Claim C6, as stated, fails: one heatmap channel and a displacement field of three
  channels, and \<open>decode\<close> returns.
\<close>

theorem decode_channel_count_counterexample:
  "length [[[1 / 2 :: rat]], [[1 / 2]], [[7]]] \<noteq> 2 * length [[[1 :: rat]]]
   \<and> decode (SKPSHeatmap_init (2, 2) (1, 1) 2) (fixed_peaks [(0, 0)] [1])
        [[[1]]] [[[1 / 2]], [[1 / 2]], [[7]]]
     = Inr ([[(1, 1)]], [[1]])"
  by (simp add: decode_eval)

subsection \<open>Encoding, then decoding\<close>

text \<open>
  Claim C4. On a codec built with positive sizes, let \<open>encode\<close> return, the heatmap
  generator answer with \<open>K\<close> heatmaps, and the peak finder answer with \<open>K\<close> locations
  whose integer parts lie below \<open>W\<close> and \<open>H\<close>. Then \<open>decode\<close> of the heatmaps and the
  displacement field returns the keypoints given to \<open>encode\<close>, exactly in this arithmetic.
  The example is the codec of input size \<open>(8, 8)\<close> and heatmap size \<open>(4, 4)\<close>, the keypoint
  \<open>(5, 3)\<close> and the peak at column 2, row 1.
\<close>

theorem encode_decode_round_trip:
  assumes self: "self = SKPSHeatmap_init (w, h) (W, H) sg"
    and sizes: "0 < w" "0 < h" "0 < W" "0 < H"
    and enc: "encode self g keypoints vis = Inr e"
    and K: "K = length (keypoints ! 0)"
    and hm: "length (heatmaps e) = K"
    and pf: "pf (heatmaps e) = (peaks, vals)"
    and contract: "length peaks = K"
    and peaks: "\<forall>k<K. \<forall>x y. astype_int32_rows peaks ! k = (x, y) \<longrightarrow> x < W \<and> y < H"
  shows "decode self pf (heatmaps e) (displacements e) = Inr (keypoints, [vals])"
proof -
  let ?sx = "fst (scale_factor self)" and ?sy = "snd (scale_factor self)"
  let ?off = "displacements e"
  have sx: "?sx \<noteq> 0" and sy: "?sy \<noteq> 0"
    using sizes by (simp_all add: self SKPSHeatmap_init_def Let_def)
  from enc have n: "length keypoints = 1"
    and gen: "generate_offside_heatmap self (heatmap_size self)
           (div_scale keypoints (scale_factor self)) = Inr ?off"
    by (rule encode_Inr)+
  from n obtain kp where kps: "keypoints = [kp]"
    by (cases keypoints) auto
  have Kkp: "K = length kp" by (simp add: K kps)
  define scaled where "scaled = map (\<lambda>p. (fst p / ?sx, snd p / ?sy)) kp"
  have ds: "div_scale keypoints (scale_factor self) = [scaled]"
    by (simp add: scaled_def kps div_scale_def)
  have Ksc: "length scaled = K" by (simp add: scaled_def Kkp)
  from gen have gen': "generate_offside_heatmap (SKPSHeatmap_init (w, h) (W, H) sg)
      (heatmap_size self) [scaled] = Inr ?off"
    by (simp only: ds) (simp only: self)
  note cells = generate_offside_heatmap_cells [OF gen', unfolded Ksc]
  have dec: "decode self pf (heatmaps e) ?off = decode_body self K peaks vals ?off"
    by (simp add: decode_eq_body hm pf)
  have ch: "decode_channel (astype_int32_rows peaks) (take K ?off) (drop K ?off) k = Inr (scaled ! k)"
    if k: "k < K" for k
  proof -
    let ?x = "fst (clamp_peak (astype_int32_rows peaks ! k))"
    let ?y = "snd (clamp_peak (astype_int32_rows peaks ! k))"
    from k contract have kp: "k < length peaks" by simp
    have "fst (astype_int32_rows peaks ! k) < W \<and> snd (astype_int32_rows peaks ! k) < H"
      using peaks k by (cases "astype_int32_rows peaks ! k") auto
    then have lt: "?x < W \<and> ?y < H"
      using sizes by (auto simp: clamp_peak_def)
    have ge: "0 \<le> ?x" "0 \<le> ?y" by (rule clamp_peak_nonneg)+
    from lt ge have nlt: "nat ?x < nat W" "nat ?y < nat H" by simp_all
    have inb: "in_bounds3 ?off k (nat ?y) (nat ?x)" "in_bounds3 ?off (K + k) (nat ?y) (nat ?x)"
      using k nlt by (simp_all add: in_bounds3_shape [OF cells(1)])
    have cx: "?off ! k ! nat ?y ! nat ?x = fst (scaled ! k) - of_int ?x"
      using cells(2) [of k "nat ?y" "nat ?x"] k nlt ge by simp
    have cy: "?off ! (K + k) ! nat ?y ! nat ?x = snd (scaled ! k) - of_int ?y"
      using cells(3) [of k "nat ?y" "nat ?x"] k nlt ge by simp
    show ?thesis
      by (simp add: decode_channel_clamped [OF kp k] Let_def inb cx cy)
  qed
  then have "\<forall>k<K. \<exists>v. decode_channel (astype_int32_rows peaks) (take K ?off)
      (drop K ?off) k = Inr v"
    by blast
  then have "\<exists>r. decode_body self K peaks vals ?off = Inr r"
    by (simp only: decode_body_Inr_iff)
  then obtain ks sc where body: "decode_body self K peaks vals ?off = Inr (ks, sc)"
    by auto
  note facts = decode_body_Inr [OF body]
  have row: "ks ! 0 ! k = kp ! k" if k: "k < K" for k
  proof -
    from facts(5) [OF k ch [OF k]]
    have "ks ! 0 ! k = (fst (scaled ! k) * ?sx, snd (scaled ! k) * ?sy)" .
    also have "\<dots> = kp ! k"
      using k sx sy by (simp add: scaled_def Kkp)
    finally show ?thesis .
  qed
  have "ks ! 0 = kp"
    using facts(3) contract Kkp row by (intro nth_equalityI) simp_all
  with facts(2) have "ks = [kp]"
    by (cases ks) simp_all
  with body facts(1) show ?thesis
    by (simp add: dec kps)
qed

theorem encode_decode_round_trip_witness:
  "\<exists>e. encode (SKPSHeatmap_init (8, 8) (4, 4) 2)
          (fixed_heatmaps [[[0, 0, 0, 0], [0, 0, 1, 0], [0, 0, 0, 0], [0, 0, 0, 0]]])
          [[(5, 3)]] None = Inr e
      \<and> astype_int32_rows [(2, 1)] ! 0 = (2, 1)
      \<and> decode (SKPSHeatmap_init (8, 8) (4, 4) 2) (fixed_peaks [(2, 1)] [1])
          (heatmaps e) (displacements e) = Inr ([[(5, 3)]], [[1]])"
proof -
  let ?self = "SKPSHeatmap_init (8, 8) (4, 4) 2"
  let ?hm = "[[[0, 0, 0, 0], [0, 0, 1, 0], [0, 0, 0, 0], [0, 0, 0, 0 :: rat]]]"
  let ?pf = "fixed_peaks [(2, 1)] [1]"
  obtain e where e: "encode ?self (fixed_heatmaps ?hm) [[(5, 3)]] None = Inr e"
    and hm: "heatmaps e = ?hm"
    by (simp add: encode_def shape2_def np_ones_def np_index_0 Let_def
        generate_offside_heatmap_Cons div_scale_def fixed_heatmaps_def)
  have K: "1 = length ([[(5 :: rat, 3 :: rat)]] ! 0)" by simp
  have len: "length (heatmaps e) = 1" by (simp add: hm)
  have pf: "?pf (heatmaps e) = ([(2, 1)], [1])" by (simp add: fixed_peaks_def)
  have xy: "astype_int32_rows [(2, 1)] ! 0 = (2, 1)"
    by (simp add: astype_int32_rows_def astype_int32_def)
  have peaks: "\<forall>k<1. \<forall>x y. astype_int32_rows [(2, 1)] ! k = (x, y) \<longrightarrow> x < 4 \<and> y < 4"
    by (simp add: xy)
  from encode_decode_round_trip [where w = 8 and h = 8 and W = 4 and H = 4 and sg = 2
      and pf = ?pf and peaks = "[(2, 1)]" and vals = "[1]", OF refl _ _ _ _ e K len pf _ peaks]
  have "decode ?self ?pf (heatmaps e) (displacements e) = Inr ([[(5, 3)]], [[1]])"
    by simp
  with e xy show ?thesis by blast
qed

subsection \<open>What the calls leave unchanged\<close>

lemma np_copy_simps:
  "fst (np_copy a s) = next_ref s"
  "next_ref (snd (np_copy a s)) = Suc (next_ref s)"
  "arrays (snd (np_copy a s)) b = (if b = next_ref s then arrays s a else arrays s b)"
  by (simp_all add: np_copy_def)

lemma decode_st_store:
  "snd (snd (decode_st self pf encoded offside s)) =
     snd (pf (next_ref s) (snd (np_copy offside (snd (np_copy encoded s)))))"
  by (simp add: decode_st_def Let_def np_copy_simps)

lemma decode_st_reading:
  "encoded < next_ref s \<Longrightarrow> offside < next_ref s \<Longrightarrow>
     fst (decode_st self (reading_peak_finder pf) encoded offside s) =
       decode self pf (arrays s encoded) (arrays s offside)"
  by (simp add: decode_st_def decode_def Let_def np_copy_simps reading_peak_finder_def)

text \<open>
  Claim C8. \<open>encode\<close> and \<open>decode\<close> return the codec object as they received it, with
  every attribute. When the peak finder writes to no existing array but the one it is
  handed, every array that existed before the call to \<open>decode\<close>, the two arguments among
  them, holds after the call what it held before: the peak finder was handed a copy.
\<close>

theorem calls_leave_configuration_and_arguments:
  "snd (encode_st self g keypoints vis) = self
   \<and> fst (snd (decode_st self pf encoded offside s)) = self
   \<and> (writes_only_argument pf \<longrightarrow>
        (\<forall>a<next_ref s. arrays (snd (snd (decode_st self pf encoded offside s))) a = arrays s a))"
proof -
  have frame: "arrays (snd (snd (decode_st self pf encoded offside s))) a = arrays s a"
    if pf: "writes_only_argument pf" and a: "a < next_ref s" for a
  proof -
    let ?s2 = "snd (np_copy offside (snd (np_copy encoded s)))"
    have "a < next_ref ?s2 \<and> a \<noteq> next_ref s"
      using a by (simp add: np_copy_simps)
    with pf have "arrays (snd (pf (next_ref s) ?s2)) a = arrays ?s2 a"
      unfolding writes_only_argument_def by blast
    also have "\<dots> = arrays s a"
      using a by (simp add: np_copy_simps)
    finally show ?thesis
      by (simp only: decode_st_store)
  qed
  have "snd (encode_st self g keypoints vis) = self"
    by (simp add: encode_st_def)
  moreover have "fst (snd (decode_st self pf encoded offside s)) = self"
    by (simp add: decode_st_def Let_def)
  ultimately show ?thesis
    using frame by blast
qed

theorem calls_leave_configuration_and_arguments_witness:
  "writes_only_argument (erasing_peaks [(0, 0)] [1])
   \<and> (0 :: nat) < next_ref (store_of [[[[1]]], [[[1 / 2]], [[1 / 2]]]])
   \<and> (1 :: nat) < next_ref (store_of [[[[1]]], [[[1 / 2]], [[1 / 2]]]])
   \<and> arrays (snd (snd (decode_st (SKPSHeatmap_init (2, 2) (1, 1) 2) (erasing_peaks [(0, 0)] [1])
        0 1 (store_of [[[[1]]], [[[1 / 2]], [[1 / 2]]]])))) 0 = [[[1]]]
   \<and> arrays (snd (snd (decode_st (SKPSHeatmap_init (2, 2) (1, 1) 2) (erasing_peaks [(0, 0)] [1])
        0 1 (store_of [[[[1]]], [[[1 / 2]], [[1 / 2]]]])))) 1 = [[[1 / 2]], [[1 / 2]]]
   \<and> arrays (snd (snd (decode_st (SKPSHeatmap_init (2, 2) (1, 1) 2) (erasing_peaks [(0, 0)] [1])
        0 1 (store_of [[[[1]]], [[[1 / 2]], [[1 / 2]]]])))) 2 = []"
proof -
  let ?s = "store_of [[[[1]]], [[[1 / 2]], [[1 / 2]]]]"
  let ?self = "SKPSHeatmap_init (2, 2) (1, 1) 2"
  let ?pf = "erasing_peaks [(0, 0)] [1]"
  have w: "writes_only_argument ?pf"
    by (simp add: writes_only_argument_def erasing_peaks_def)
  have n: "next_ref ?s = 2" by (simp add: store_of_def)
  have a0: "arrays ?s 0 = [[[1]]]" and a1: "arrays ?s 1 = [[[1 / 2]], [[1 / 2]]]"
    by (simp_all add: store_of_def)
  have erased: "arrays (snd (snd (decode_st ?self ?pf 0 1 ?s))) 2 = []"
    by (simp add: decode_st_store erasing_peaks_def n)
  from calls_leave_configuration_and_arguments [of ?self _ _ _ ?pf 0 1 ?s] w
  have "\<forall>a<next_ref ?s. arrays (snd (snd (decode_st ?self ?pf 0 1 ?s))) a = arrays ?s a"
    by blast
  then have "arrays (snd (snd (decode_st ?self ?pf 0 1 ?s))) 0 = arrays ?s 0"
    and "arrays (snd (snd (decode_st ?self ?pf 0 1 ?s))) 1 = arrays ?s 1"
    by (simp_all add: n)
  then have "arrays (snd (snd (decode_st ?self ?pf 0 1 ?s))) 0 = [[[1]]]"
    and "arrays (snd (snd (decode_st ?self ?pf 0 1 ?s))) 1 = [[[1 / 2]], [[1 / 2]]]"
    by (simp_all only: a0 a1)
  with w erased show ?thesis
    by (simp add: n)
qed

end
